theory Spec2Isabelle
  imports Complex_Main "HOL-Library.Word"
begin

unbundle bit_operations_syntax

section \<open>MicroCore \<open>wiring.c\<close>: timekeeping on the ATtiny13\<close>

text \<open>
  A shallow embedding of \<open>avr/cores/microcore/wiring.c\<close>: the overflow interrupt
  handler \<open>ISR(TIM0_OVF_vect)\<close>, \<open>micros()\<close>, \<open>delay()\<close> and \<open>init()\<close>.
  Registers and the overflow counter are fields of one machine state; every function
  takes the state and returns the new one. \<open>micros()\<close> and \<open>init()\<close> are kept as
  the sequence of their statements, so that the state between two statements can be
  named and an interrupt can be placed there.
\<close>

subsection \<open>Machine integers\<close>

type_synonym u8 = "8 word"
type_synonym u16 = "16 word"
type_synonym u32 = "32 word"

subsection \<open>Build configuration and device header\<close>

text \<open>
  \<open>F_CPU\<close> and \<open>ENABLE_MICROS\<close> are preprocessor symbols of the build
  (\<open>core_settings.h\<close> and the compiler's command line). \<open>CS00\<close>, \<open>CS01\<close>
  and \<open>TOIE0\<close> are bit numbers from \<open><avr/io.h>\<close>, and \<open>SREG_I\<close> is the bit
  number of the global interrupt flag in \<open>SREG\<close>. None of these is defined in
  \<open>wiring.c\<close>, so all of them are parameters of the model.
\<close>

record config =
  F_CPU :: int
  ENABLE_MICROS :: bool
  CS00 :: nat
  CS01 :: nat
  TOIE0 :: nat
  SREG_I :: nat

text \<open>
  The values of the header for the ATtiny13, the device the file header names; used
  for concrete evaluation only.
\<close>

definition attiny13 :: "int \<Rightarrow> bool \<Rightarrow> config" where
  "attiny13 f en =
     \<lparr>F_CPU = f, ENABLE_MICROS = en, CS00 = 0, CS01 = 1, TOIE0 = 1, SREG_I = 7\<rparr>"

text \<open>\<open>_BV(bit)\<close> is \<open>(1 << (bit))\<close>, here already truncated to the 8-bit register
  it is stored into.\<close>

definition BV :: "nat \<Rightarrow> u8" where
  "BV b = push_bit b 1"

subsection \<open>Machine state\<close>

text \<open>
  The special function registers the file touches, and its one global variable
  \<open>volatile uint32_t timer0_overflow\<close>. \<open>TCNT0\<close> is the live count of timer 0:
  the hardware advances it on its own, and the model holds the value a read returns.
\<close>

record mcu =
  SREG :: u8
  TCCR0B :: u8
  TIMSK0 :: u8
  TCNT0 :: u8
  timer0_overflow :: u32

text \<open>The state a program starts in as far as the file fixes it:
  \<open>timer0_overflow = 0\<close> by its static initialiser.\<close>

definition static_init :: "mcu \<Rightarrow> bool" where
  "static_init s = (timer0_overflow s = 0)"

text \<open>\<open>cli()\<close> clears and \<open>sei()\<close> sets the global interrupt flag of \<open>SREG\<close>.\<close>

definition cli :: "config \<Rightarrow> mcu \<Rightarrow> mcu" where
  "cli cfg s = s\<lparr>SREG := unset_bit (SREG_I cfg) (SREG s)\<rparr>"

definition sei :: "config \<Rightarrow> mcu \<Rightarrow> mcu" where
  "sei cfg s = s\<lparr>SREG := set_bit (SREG_I cfg) (SREG s)\<rparr>"

definition interrupts_enabled :: "config \<Rightarrow> mcu \<Rightarrow> bool" where
  "interrupts_enabled cfg s = bit (SREG s) (SREG_I cfg)"

subsection \<open>The overflow interrupt handler\<close>

text \<open>\<open>ISR(TIM0_OVF_vect) { timer0_overflow++; }\<close>\<close>

definition TIM0_OVF_vect :: "mcu \<Rightarrow> mcu" where
  "TIM0_OVF_vect s = s\<lparr>timer0_overflow := timer0_overflow s + 1\<rparr>"

text \<open>
  An overflow of timer 0 sets the timer's interrupt request flag, kept here as a
  boolean beside the machine. When the request flag, the global interrupt flag and the
  timer's overflow interrupt enable bit are all set, the handler runs and the request
  flag is cleared; otherwise the request stays pending.
\<close>

definition serve_overflow :: "config \<Rightarrow> mcu \<times> bool \<Rightarrow> mcu \<times> bool" where
  "serve_overflow cfg =
     (\<lambda>(s, pending).
        if pending \<and> interrupts_enabled cfg s \<and> bit (TIMSK0 s) (TOIE0 cfg)
        then (TIM0_OVF_vect s, False)
        else (s, pending))"

subsection \<open>Straight-line code\<close>

text \<open>A function body without branches is the list of its statements, run in order.\<close>

primrec run :: "('a \<Rightarrow> 'a) list \<Rightarrow> 'a \<Rightarrow> 'a" where
  "run [] st = st"
| "run (c # cs) st = run cs (c st)"

subsection \<open>\<open>micros()\<close>\<close>

text \<open>
  The locals \<open>x\<close>, \<open>t\<close> and \<open>oldSREG\<close> of \<open>micros()\<close>. \<open>x\<close> and \<open>t\<close> are
  declared without an initialiser, so what they hold on entry is a parameter of
  \<open>micros\<close> below.
\<close>

record micros_locals =
  micros_x :: u32
  micros_t :: u8
  micros_oldSREG :: u8

type_synonym micros_state = "micros_locals \<times> mcu"

text \<open>\<open>uint8_t oldSREG = SREG;\<close>\<close>

definition save_SREG :: "micros_state \<Rightarrow> micros_state" where
  "save_SREG = (\<lambda>(l, s). (l\<lparr>micros_oldSREG := SREG s\<rparr>, s))"

text \<open>\<open>t = TCNT0;\<close>\<close>

definition read_TCNT0 :: "micros_state \<Rightarrow> micros_state" where
  "read_TCNT0 = (\<lambda>(l, s). (l\<lparr>micros_t := TCNT0 s\<rparr>, s))"

text \<open>\<open>cli();\<close>\<close>

definition disable_interrupts :: "config \<Rightarrow> micros_state \<Rightarrow> micros_state" where
  "disable_interrupts cfg = (\<lambda>(l, s). (l, cli cfg s))"

text \<open>\<open>x = timer0_overflow;\<close>\<close>

definition read_timer0_overflow :: "micros_state \<Rightarrow> micros_state" where
  "read_timer0_overflow = (\<lambda>(l, s). (l\<lparr>micros_x := timer0_overflow s\<rparr>, s))"

text \<open>\<open>SREG = oldSREG;\<close>\<close>

definition restore_SREG :: "micros_state \<Rightarrow> micros_state" where
  "restore_SREG = (\<lambda>(l, s). (l, s\<lparr>SREG := micros_oldSREG l\<rparr>))"

text \<open>Lines 68 to 72 of the file, in their order.\<close>

definition micros_body :: "config \<Rightarrow> (micros_state \<Rightarrow> micros_state) list" where
  "micros_body cfg =
     [save_SREG, read_TCNT0, disable_interrupts cfg, read_timer0_overflow, restore_SREG]"

text \<open>
  The \<open>#if F_CPU == ... #elif ... #endif\<close> chain of return statements. \<open>x\<close> is a
  \<open>uint32_t\<close>, so the shift, the sum and the product are computed modulo \<open>2^32\<close>.
  For a frequency that is not listed no return statement is compiled: \<open>None\<close>.
\<close>

definition micros_return :: "int \<Rightarrow> u32 \<Rightarrow> u8 \<Rightarrow> u32 option" where
  "micros_return f x t =
     (if f = 20000000 then Some ((push_bit 8 x + ucast t) * 3)
      else if f = 16000000 then Some ((push_bit 8 x + ucast t) * 4)
      else if f = 12000000 then Some ((push_bit 8 x + ucast t) * 5)
      else if f = 9600000 then Some ((push_bit 8 x + ucast t) * 7)
      else if f = 8000000 then Some ((push_bit 8 x + ucast t) * 8)
      else if f = 4800000 then Some ((push_bit 8 x + ucast t) * 13)
      else if f = 1200000 then Some ((push_bit 8 x + ucast t) * 7)
      else if f = 1000000 then Some ((push_bit 8 x + ucast t) * 8)
      else if f = 600000 then Some ((push_bit 8 x + ucast t) * 13)
      else if f = 128000 then Some ((push_bit 8 x + ucast t) * 62)
      else None)"

text \<open>
  \<open>micros()\<close> as compiled with \<open>ENABLE_MICROS\<close> defined (without it the function
  does not exist): the value returned, if any, and the machine state on return.
  \<open>l0\<close> is what the locals hold on entry.
\<close>

definition micros :: "config \<Rightarrow> micros_locals \<Rightarrow> mcu \<Rightarrow> u32 option \<times> mcu" where
  "micros cfg l0 s =
     (case run (micros_body cfg) (l0, s) of
        (l, s') \<Rightarrow> (micros_return (F_CPU cfg) (micros_x l) (micros_t l), s'))"

text \<open>The locals and the machine after the first \<open>k\<close> statements of \<open>micros()\<close>.\<close>

definition micros_upto :: "config \<Rightarrow> nat \<Rightarrow> micros_locals \<Rightarrow> mcu \<Rightarrow> micros_state" where
  "micros_upto cfg k l0 s = run (take k (micros_body cfg)) (l0, s)"

text \<open>
  Statements run with interrupts: before each statement a pending overflow request is
  served if interrupts are enabled.
\<close>

primrec run_irq ::
    "config \<Rightarrow> (micros_state \<Rightarrow> micros_state) list \<Rightarrow> micros_state \<times> bool
       \<Rightarrow> micros_state \<times> bool" where
  "run_irq cfg [] st = st"
| "run_irq cfg (c # cs) st =
     run_irq cfg cs
       (case st of
          ((l, s), pending) \<Rightarrow>
            (case serve_overflow cfg (s, pending) of
               (s', pending') \<Rightarrow> (c (l, s'), pending')))"

text \<open>
  \<open>micros()\<close> with timer 0 overflowing after its first \<open>k\<close> statements: the request
  is raised there, and served before the next statement at which interrupts are
  enabled, or after the last statement, before the function returns. The result is the
  value returned, the machine on return, and whether the request is still pending.
\<close>

definition micros_preempted ::
    "config \<Rightarrow> nat \<Rightarrow> micros_locals \<Rightarrow> mcu \<Rightarrow> u32 option \<times> mcu \<times> bool" where
  "micros_preempted cfg k l0 s =
     (case run_irq cfg (drop k (micros_body cfg)) (micros_upto cfg k l0 s, True) of
        ((l, s2), p2) \<Rightarrow>
          (case serve_overflow cfg (s2, p2) of
             (s', p') \<Rightarrow> (micros_return (F_CPU cfg) (micros_x l) (micros_t l), s', p')))"

text \<open>The timer ticks a snapshot of the counters stands for: \<open>tally * 256 + count\<close>.\<close>

definition ticks :: "mcu \<Rightarrow> nat" where
  "ticks s = unat (timer0_overflow s) * 256 + unat (TCNT0 s)"

text \<open>
  The ticks of the counters once timer 0 has overflowed once since the snapshot \<open>s\<close>
  and the live count reads \<open>c\<close>: the tally of \<open>s\<close> and one more, times 256, plus
  \<open>c\<close>.
\<close>

definition ticks_after :: "mcu \<Rightarrow> u8 \<Rightarrow> nat" where
  "ticks_after s c = (unat (timer0_overflow s) + 1) * 256 + unat c"

subsection \<open>The conversion table of the specification\<close>

text \<open>
  The specification's table from CPU frequency (in Hz) to the multiplier, written from
  its words: 20 MHz to 3, 16 MHz to 4, 12 MHz to 5, 9.6 MHz to 7, 8 MHz to 8, 4.8 MHz
  to 13, 1.2 MHz to 7, 1 MHz to 8, 600 kHz to 13, 128 kHz to 62.
\<close>

definition conversion_table :: "(int \<times> nat) list" where
  "conversion_table =
     [(20000000, 3), (16000000, 4), (12000000, 5), (9600000, 7), (8000000, 8),
      (4800000, 13), (1200000, 7), (1000000, 8), (600000, 13), (128000, 62)]"

definition conversion_constant :: "int \<Rightarrow> nat option" where
  "conversion_constant f = map_of conversion_table f"

subsection \<open>\<open>delay()\<close>\<close>

text \<open>
  \<open>_delay_ms(d)\<close> of \<open><util/delay.h>\<close> busy-waits and changes no variable. The
  model keeps the number of milliseconds busy-waited so far.
\<close>

definition delay_ms :: "nat \<Rightarrow> nat \<Rightarrow> nat" where
  "delay_ms d waited = waited + d"

text \<open>
  \<open>while(ms--) _delay_ms(1);\<close> The test reads \<open>ms\<close> and then decrements it, also
  when the test fails. The result is the final \<open>ms\<close> and the milliseconds waited.
\<close>

function delay_loop :: "u16 \<Rightarrow> nat \<Rightarrow> u16 \<times> nat" where
  "delay_loop ms waited =
     (if ms \<noteq> 0 then delay_loop (ms - 1) (delay_ms 1 waited) else (ms - 1, waited))"
  by pat_completeness auto
termination
  by (relation "measure (\<lambda>(ms, waited). unat ms)") (auto simp: unat_minus_one unat_gt_0)

declare delay_loop.simps [simp del]

definition delay :: "u16 \<Rightarrow> nat \<Rightarrow> nat" where
  "delay ms waited = snd (delay_loop ms waited)"

subsection \<open>\<open>init()\<close>\<close>

text \<open>
  The two prescalers \<open>init()\<close> chooses between; its comments name them
  \<open>F_CPU/64\<close> and \<open>F_CPU/8\<close>.
\<close>

datatype prescaler = Div64 | Div8

fun divisor :: "prescaler \<Rightarrow> nat" where
  "divisor Div64 = 64"
| "divisor Div8 = 8"

text \<open>\<open>#if F_CPU >= 4800000L\<close>\<close>

definition prescaler_of :: "int \<Rightarrow> prescaler" where
  "prescaler_of f = (if f \<ge> 4800000 then Div64 else Div8)"

text \<open>The value written to \<open>TCCR0B\<close>: \<open>_BV(CS00) | _BV(CS01)\<close> or \<open>_BV(CS01)\<close>.\<close>

fun clock_select :: "config \<Rightarrow> prescaler \<Rightarrow> u8" where
  "clock_select cfg Div64 = BV (CS00 cfg) OR BV (CS01 cfg)"
| "clock_select cfg Div8 = BV (CS01 cfg)"

definition write_TCCR0B :: "u8 \<Rightarrow> mcu \<Rightarrow> mcu" where
  "write_TCCR0B v s = s\<lparr>TCCR0B := v\<rparr>"

definition write_TIMSK0 :: "u8 \<Rightarrow> mcu \<Rightarrow> mcu" where
  "write_TIMSK0 v s = s\<lparr>TIMSK0 := v\<rparr>"

definition write_TCNT0 :: "u8 \<Rightarrow> mcu \<Rightarrow> mcu" where
  "write_TCNT0 v s = s\<lparr>TCNT0 := v\<rparr>"

text \<open>
  The statements of \<open>init()\<close>, in their order: the three register writes are compiled
  only under \<open>#ifdef ENABLE_MICROS\<close>, \<open>sei()\<close> always.
\<close>

definition init_body :: "config \<Rightarrow> (mcu \<Rightarrow> mcu) list" where
  "init_body cfg =
     (if ENABLE_MICROS cfg
      then [write_TCCR0B (clock_select cfg (prescaler_of (F_CPU cfg))),
            write_TIMSK0 (BV (TOIE0 cfg)),
            write_TCNT0 0]
      else []) @ [sei cfg]"

definition init :: "config \<Rightarrow> mcu \<Rightarrow> mcu" where
  "init cfg s = run (init_body cfg) s"

text \<open>The machine after the first \<open>k\<close> statements of \<open>init()\<close>.\<close>

definition init_upto :: "config \<Rightarrow> nat \<Rightarrow> mcu \<Rightarrow> mcu" where
  "init_upto cfg k s = run (take k (init_body cfg)) s"

subsection \<open>Tick length\<close>

text \<open>
  The length of one timer tick in microseconds, \<open>prescaler / frequency_MHz\<close>, as the
  comments of \<open>micros()\<close> compute it (\<open>1/(16MHz/64) = 4us\<close>).
\<close>

definition tick_us :: "int \<Rightarrow> real" where
  "tick_us f = real (divisor (prescaler_of f)) / (real_of_int f / 1000000)"

subsection \<open>Concrete inputs\<close>

text \<open>
  A machine as \<open>init()\<close> leaves an ATtiny13 clocked at 4.8 MHz or more (interrupts
  enabled, prescaler 64, overflow interrupt enabled), with the given overflow tally and
  live count; a machine with every register and the overflow tally at zero; and some
  contents for the locals of \<open>micros()\<close> on entry.
\<close>

definition snapshot :: "u32 \<Rightarrow> u8 \<Rightarrow> mcu" where
  "snapshot x t = \<lparr>SREG = 0x80, TCCR0B = 3, TIMSK0 = 2, TCNT0 = t, timer0_overflow = x\<rparr>"

definition all_zero :: mcu where
  "all_zero = \<lparr>SREG = 0, TCCR0B = 0, TIMSK0 = 0, TCNT0 = 0, timer0_overflow = 0\<rparr>"

definition no_locals :: micros_locals where
  "no_locals = \<lparr>micros_x = 0, micros_t = 0, micros_oldSREG = 0\<rparr>"

section \<open>Basic facts\<close>

lemma micros_return_conversion:
  "micros_return f x t =
     map_option (\<lambda>k. (push_bit 8 x + ucast t) * word_of_nat k) (conversion_constant f)"
  by (simp add: micros_return_def conversion_constant_def conversion_table_def)

lemma micros_upto_2:
  "micros_upto cfg 2 l0 s = (l0\<lparr>micros_oldSREG := SREG s, micros_t := TCNT0 s\<rparr>, s)"
  by (simp add: micros_upto_def micros_body_def save_SREG_def read_TCNT0_def)

lemma micros_upto_3:
  "micros_upto cfg 3 l0 s =
     (l0\<lparr>micros_oldSREG := SREG s, micros_t := TCNT0 s\<rparr>, cli cfg s)"
  by (simp add: micros_upto_def micros_body_def save_SREG_def read_TCNT0_def
      disable_interrupts_def)

lemma micros_upto_4:
  "micros_upto cfg 4 l0 s =
     (l0\<lparr>micros_oldSREG := SREG s, micros_t := TCNT0 s, micros_x := timer0_overflow s\<rparr>,
      cli cfg s)"
  by (simp add: micros_upto_def micros_body_def save_SREG_def read_TCNT0_def
      disable_interrupts_def read_timer0_overflow_def cli_def)

lemma micros_upto_5:
  "micros_upto cfg 5 l0 s =
     (l0\<lparr>micros_oldSREG := SREG s, micros_t := TCNT0 s, micros_x := timer0_overflow s\<rparr>, s)"
  by (simp add: micros_upto_def micros_body_def save_SREG_def read_TCNT0_def
      disable_interrupts_def read_timer0_overflow_def restore_SREG_def cli_def)

lemma micros_eq:
  "micros cfg l0 s = (micros_return (F_CPU cfg) (timer0_overflow s) (TCNT0 s), s)"
  by (simp add: micros_def micros_body_def save_SREG_def read_TCNT0_def
      disable_interrupts_def read_timer0_overflow_def restore_SREG_def cli_def)

text \<open>The value computed by a return statement, read as a natural number: the ticks
  times the multiplier, modulo \<open>2^32\<close>.\<close>

lemma micros_value_of_nat:
  "(push_bit 8 x + ucast (t :: u8)) * word_of_nat K
     = (word_of_nat ((unat x * 256 + unat t) * K) :: u32)"
proof -
  have "ucast t = (word_of_nat (unat t) :: u32)"
    by (rule word_unat_eq_iff [THEN iffD2])
       (simp add: unat_of_nat unsigned_ucast_eq take_bit_eq_mod)
  moreover have "push_bit 8 x = (word_of_nat (unat x * 256) :: u32)"
    by (simp add: push_bit_eq_mult)
  ultimately show ?thesis by simp
qed

lemma unat_micros_value:
  "unat ((push_bit 8 x + ucast (t :: u8)) * word_of_nat K :: u32)
     = ((unat x * 256 + unat t) * K) mod 2 ^ 32"
  by (simp only: micros_value_of_nat unat_of_nat) simp

lemma fst_micros_supported:
  assumes "conversion_constant (F_CPU cfg) = Some K"
  shows "fst (micros cfg l0 s)
           = Some ((push_bit 8 (timer0_overflow s) + ucast (TCNT0 s)) * word_of_nat K)"
  using assms by (simp add: micros_eq micros_return_conversion)

lemma mod_mono_same_epoch:
  fixes a b m :: nat
  assumes "a \<le> b" and "a div m = b div m"
  shows "a mod m \<le> b mod m"
proof -
  have "a = m * (a div m) + a mod m" and "b = m * (b div m) + b mod m"
    by simp_all
  with assms show ?thesis
    by (metis add_le_cancel_left)
qed

lemma mod_diff_same_epoch:
  fixes a b m :: nat
  assumes "a \<le> b" and "a div m = b div m"
  shows "b mod m - a mod m = b - a"
proof -
  have "b mod m = b - m * (b div m)"
    by (simp add: minus_mult_div_eq_mod)
  moreover have "a mod m = a - m * (b div m)"
    using minus_mult_div_eq_mod [of a m] assms(2) by simp
  moreover have "m * (b div m) \<le> a"
    using times_div_less_eq_dividend [of m a] assms(2) by simp
  ultimately show ?thesis
    using assms(1) by simp
qed

text \<open>The loop of \<open>delay()\<close> leaves \<open>ms\<close> at \<open>0xFFFF\<close> (the decrement of the
  failing test) and has waited one millisecond per iteration.\<close>

lemma delay_loop_eq: "delay_loop ms waited = (0xFFFF, waited + unat ms)"
proof (induction ms waited rule: delay_loop.induct)
  case (1 ms waited)
  show ?case
  proof (cases "ms = 0")
    case True
    then show ?thesis
      by (simp add: delay_loop.simps [of 0])
  next
    case False
    then have "unat ms \<noteq> 0"
      by (simp add: unat_eq_0)
    then have "Suc (unat (ms - 1)) = unat ms"
      using False by (simp add: unat_minus_one)
    with False 1 show ?thesis
      by (subst delay_loop.simps) (simp add: delay_ms_def)
  qed
qed

lemma conversion_constant_range:
  "conversion_constant f = Some K \<Longrightarrow> 3 \<le> K \<and> K \<le> 62"
  by (auto simp: conversion_constant_def conversion_table_def split: if_splits)

lemma unat_fst_micros:
  assumes "conversion_constant (F_CPU cfg) = Some K"
  shows "\<exists>r. fst (micros cfg l0 s) = Some r \<and> unat r = (ticks s * K) mod 2 ^ 32"
  using assms by (simp add: fst_micros_supported unat_micros_value ticks_def)

lemma conversion_constant_16MHz:
  "conversion_constant (F_CPU (attiny13 16000000 en)) = Some 4"
  by (simp add: attiny13_def conversion_constant_def conversion_table_def)

text \<open>An integer within one half of a real number is a nearest integer to it.\<close>

lemma nearest_of_half:
  fixes q :: real
  assumes "\<bar>real k - q\<bar> \<le> 1 / 2"
  shows "\<bar>real k - q\<bar> \<le> \<bar>real_of_int j - q\<bar>"
proof (cases "j = int k")
  case True
  then show ?thesis by simp
next
  case False
  then have "1 \<le> \<bar>j - int k\<bar>" by simp
  then have "1 \<le> \<bar>real_of_int j - real k\<bar>"
    by (metis of_int_1_le_iff of_int_abs of_int_diff of_int_of_nat_eq)
  with assms show ?thesis by linarith
qed

lemma table_within_half:
  "(f, k) \<in> set conversion_table \<Longrightarrow> \<bar>real k - tick_us f\<bar> \<le> 1 / 2"
  by (auto simp: conversion_table_def tick_us_def prescaler_of_def)

text \<open>What \<open>init()\<close> does, with and without \<open>ENABLE_MICROS\<close>.\<close>

lemma init_upto_enabled:
  assumes "ENABLE_MICROS cfg"
  shows "init_upto cfg 1 s = s\<lparr>TCCR0B := clock_select cfg (prescaler_of (F_CPU cfg))\<rparr>"
    and "init_upto cfg 2 s = s\<lparr>TCCR0B := clock_select cfg (prescaler_of (F_CPU cfg)),
                               TIMSK0 := BV (TOIE0 cfg)\<rparr>"
    and "init_upto cfg 3 s = s\<lparr>TCCR0B := clock_select cfg (prescaler_of (F_CPU cfg)),
                               TIMSK0 := BV (TOIE0 cfg), TCNT0 := 0\<rparr>"
    and "init cfg s = sei cfg (init_upto cfg 3 s)"
    and "length (init_body cfg) = 4"
  using assms
  by (simp_all add: init_upto_def init_def init_body_def write_TCCR0B_def write_TIMSK0_def
      write_TCNT0_def)

lemma init_disabled: "\<not> ENABLE_MICROS cfg \<Longrightarrow> init cfg s = sei cfg s"
  by (simp add: init_def init_body_def)

lemma init_counters:
  "timer0_overflow (init cfg s) = timer0_overflow s"
  "TCNT0 (init cfg s) = (if ENABLE_MICROS cfg then 0 else TCNT0 s)"
  by (cases "ENABLE_MICROS cfg"; simp add: init_upto_enabled init_disabled sei_def)+

lemma interrupts_enabled_sei: "SREG_I cfg < 8 \<Longrightarrow> interrupts_enabled cfg (sei cfg s)"
  by (simp add: interrupts_enabled_def sei_def bit_set_bit_iff possible_bit_def)

lemma ticks_init:
  "ENABLE_MICROS cfg \<Longrightarrow> ticks (init cfg s) = ticks s - unat (TCNT0 s)"
  by (simp add: ticks_def init_counters)

text \<open>
  One overflow of timer 0 during \<open>micros()\<close>, entered with interrupts enabled. Raised
  after the second statement, the request is served at once, before \<open>cli()\<close>. Raised
  after the third, it stays pending while the tally is read and is served once
  \<open>SREG\<close> has been restored.
\<close>

lemma micros_preempted_2:
  assumes "interrupts_enabled cfg s" and "bit (TIMSK0 s) (TOIE0 cfg)"
  shows "micros_preempted cfg 2 l0 s
           = (micros_return (F_CPU cfg) (timer0_overflow s + 1) (TCNT0 s),
              TIM0_OVF_vect s, False)"
  using assms
  by (simp add: micros_preempted_def micros_upto_2 serve_overflow_def micros_body_def
      disable_interrupts_def read_timer0_overflow_def restore_SREG_def cli_def
      TIM0_OVF_vect_def interrupts_enabled_def bit_unset_bit_iff)

lemma micros_preempted_3:
  assumes "interrupts_enabled cfg s" and "bit (TIMSK0 s) (TOIE0 cfg)"
  shows "micros_preempted cfg 3 l0 s = (fst (micros cfg l0 s), TIM0_OVF_vect s, False)"
  using assms
  by (simp add: micros_preempted_def micros_upto_3 serve_overflow_def micros_body_def
      read_timer0_overflow_def restore_SREG_def cli_def TIM0_OVF_vect_def
      interrupts_enabled_def bit_unset_bit_iff micros_eq)

text \<open>The value computed from the tally after one more overflow.\<close>

lemma unat_micros_value_succ:
  "unat ((push_bit 8 (x + 1) + ucast (c :: u8)) * word_of_nat K :: u32)
     = (((unat x + 1) * 256 + unat c) * K) mod 2 ^ 32"
proof -
  have "ucast c = (word_of_nat (unat c) :: u32)"
    by (rule word_unat_eq_iff [THEN iffD2])
       (simp add: unat_of_nat unsigned_ucast_eq take_bit_eq_mod)
  moreover have "push_bit 8 (x + 1) = (word_of_nat ((unat x + 1) * 256) :: u32)"
    by (simp add: push_bit_eq_mult)
  ultimately have "(push_bit 8 (x + 1) + ucast c) * word_of_nat K
      = (word_of_nat (((unat x + 1) * 256 + unat c) * K) :: u32)"
    by simp
  then show ?thesis
    by (simp only: unat_of_nat) simp
qed

lemma word_le_of_same_epoch:
  fixes r1 r2 :: u32
  assumes "unat r1 = a mod 2 ^ 32" and "unat r2 = b mod 2 ^ 32"
      and "a \<le> b" and "a div 2 ^ 32 = b div 2 ^ 32"
  shows "r1 \<le> r2"
  using mod_mono_same_epoch [OF assms(3,4)] assms(1,2)
  by (simp add: word_le_nat_alt)

section \<open>The claims\<close>

text \<open>
  Claim C1. \<open>micros()\<close> follows the algorithm in its order. After its first statement
  the status register is saved; after the second the live count \<open>TCNT0\<close> is in \<open>t\<close>
  and the machine is still as on entry, so the count is read before interrupts are
  disabled; after the third the global interrupt flag is clear; the fourth reads the
  overflow tally into \<open>x\<close> in that state, interrupts disabled; the fifth, the last,
  puts the saved status register back. The value returned is
  \<open>((tally << 8) + count) * k\<close> for the multiplier \<open>k\<close> of the build's frequency.
\<close>

theorem micros_algorithm_order:
  "micros_upto cfg 1 l0 s = (l0\<lparr>micros_oldSREG := SREG s\<rparr>, s)
   \<and> micros_upto cfg 2 l0 s = (l0\<lparr>micros_oldSREG := SREG s, micros_t := TCNT0 s\<rparr>, s)
   \<and> micros_upto cfg 3 l0 s =
       (l0\<lparr>micros_oldSREG := SREG s, micros_t := TCNT0 s\<rparr>, cli cfg s)
   \<and> \<not> interrupts_enabled cfg (cli cfg s)
   \<and> micros_upto cfg 4 l0 s =
       (l0\<lparr>micros_oldSREG := SREG s, micros_t := TCNT0 s, micros_x := timer0_overflow s\<rparr>,
        cli cfg s)
   \<and> micros_upto cfg 5 l0 s =
       (l0\<lparr>micros_oldSREG := SREG s, micros_t := TCNT0 s, micros_x := timer0_overflow s\<rparr>,
        s)
   \<and> length (micros_body cfg) = 5
   \<and> micros cfg l0 s =
       (map_option (\<lambda>k. (push_bit 8 (timer0_overflow s) + ucast (TCNT0 s)) * word_of_nat k)
          (conversion_constant (F_CPU cfg)), s)"
proof -
  have "micros_upto cfg 1 l0 s = (l0\<lparr>micros_oldSREG := SREG s\<rparr>, s)"
    by (simp add: micros_upto_def micros_body_def save_SREG_def)
  moreover have "\<not> interrupts_enabled cfg (cli cfg s)"
    by (simp add: interrupts_enabled_def cli_def bit_unset_bit_iff)
  moreover have "length (micros_body cfg) = 5"
    by (simp add: micros_body_def)
  ultimately show ?thesis
    by (simp add: micros_upto_2 micros_upto_3 micros_upto_4 micros_upto_5 micros_eq
        micros_return_conversion)
qed

text \<open>
  Claim C2. For every frequency the multiplier in the return statement of \<open>micros()\<close>
  is the one the specification's table gives, and a frequency outside the table has no
  return statement. Every multiplier of the table is a nearest integer to
  \<open>prescaler / frequency_MHz\<close>: no integer is nearer (for 128 kHz the quotient is
  62.5, and 62 and 63 are equally near). At 16 MHz, 1000 ticks give 4000 microseconds.
\<close>

theorem conversion_constants_match_table:
  "micros_return f x t =
     map_option (\<lambda>k. (push_bit 8 x + ucast t) * word_of_nat k) (conversion_constant f)
   \<and> map conversion_constant
         [20000000, 16000000, 12000000, 9600000, 8000000,
          4800000, 1200000, 1000000, 600000, 128000]
       = map Some [3, 4, 5, 7, 8, 13, 7, 8, 13, 62]
   \<and> (\<forall>(f, k) \<in> set conversion_table.
         \<forall>j :: int. \<bar>real k - tick_us f\<bar> \<le> \<bar>real_of_int j - tick_us f\<bar>)
   \<and> (F_CPU cfg = 16000000 \<and> ticks s = 1000 \<longrightarrow> fst (micros cfg l0 s) = Some 4000)"
proof -
  have "map conversion_constant
         [20000000, 16000000, 12000000, 9600000, 8000000,
          4800000, 1200000, 1000000, 600000, 128000]
       = map Some [3, 4, 5, 7, 8, 13, 7, 8, 13, 62]"
    by (simp add: conversion_constant_def conversion_table_def)
  moreover have "\<forall>(f, k) \<in> set conversion_table.
         \<forall>j :: int. \<bar>real k - tick_us f\<bar> \<le> \<bar>real_of_int j - tick_us f\<bar>"
    using table_within_half nearest_of_half by blast
  moreover have "fst (micros cfg l0 s) = Some 4000"
    if "F_CPU cfg = 16000000" and "ticks s = 1000"
  proof -
    from that(1) have "conversion_constant (F_CPU cfg) = Some 4"
      by (simp add: conversion_constant_def conversion_table_def)
    then have "fst (micros cfg l0 s)
        = Some (word_of_nat ((unat (timer0_overflow s) * 256 + unat (TCNT0 s)) * 4))"
      by (simp only: fst_micros_supported micros_value_of_nat)
    with that(2) show ?thesis
      by (simp add: ticks_def)
  qed
  ultimately show ?thesis
    by (simp only: micros_return_conversion) blast
qed

theorem conversion_constants_match_table_witness:
  "(128000, 62) \<in> set conversion_table
   \<and> tick_us 128000 = 125 / 2
   \<and> \<bar>real 62 - tick_us 128000\<bar> \<le> \<bar>real_of_int 63 - tick_us 128000\<bar>
   \<and> F_CPU (attiny13 16000000 True) = 16000000 \<and> ticks (snapshot 3 232) = 1000
   \<and> fst (micros (attiny13 16000000 True) no_locals (snapshot 3 232)) = Some 4000"
proof -
  have m: "(128000, 62) \<in> set conversion_table"
    by (simp add: conversion_table_def)
  have f: "F_CPU (attiny13 16000000 True) = 16000000"
    by (simp add: attiny13_def)
  have t: "ticks (snapshot 3 232) = 1000"
    by (simp add: ticks_def snapshot_def)
  have u: "tick_us 128000 = 125 / 2"
    by (simp add: tick_us_def prescaler_of_def)
  from conversion_constants_match_table
         [of 0 0 0 "attiny13 16000000 True" "snapshot 3 232" no_locals] m f t u
  show ?thesis by blast
qed

text \<open>
  Claim C3, as amended. Let interrupts be enabled on entry, and let timer 0 overflow
  after \<open>micros()\<close> has read the live count and before it disables interrupts. Then
  the handler runs exactly once, no request is left pending, and the value returned is
  that of the ticks on entry plus exactly one overflow of 256 ticks, modulo \<open>2^32\<close>:
  the overflow is counted once. It is what \<open>micros()\<close> returns for the new tally with
  the count read before the overflow. Until the 32-bit result wraps around it is not
  smaller than the value a call returned from any earlier state of the counters. Against
  the counters after the interrupt, with live count \<open>c\<close>, it is not stale but ahead,
  by the count read minus \<open>c\<close> (less than 256 ticks), when \<open>c\<close> is below the count
  read; it is behind, by \<open>c\<close> minus the count read, only when the live count has
  passed the count read again. When the overflow comes after interrupts have been
  disabled, the handler runs once \<open>SREG\<close> is restored and the value returned is that
  of the counters on entry.
\<close>

theorem overflow_between_count_and_tally_reads:
  assumes "interrupts_enabled cfg s" and "bit (TIMSK0 s) (TOIE0 cfg)"
      and "conversion_constant (F_CPU cfg) = Some K"
  shows "\<exists>r.
           micros_preempted cfg 2 loc s = (Some r, TIM0_OVF_vect s, False)
         \<and> unat r = ((ticks s + 256) * K) mod 2 ^ 32
         \<and> fst (micros cfg loc (TIM0_OVF_vect s)) = Some r
         \<and> (\<forall>p lp. ticks p \<le> ticks s
                \<and> (ticks p * K) div 2 ^ 32 = ((ticks s + 256) * K) div 2 ^ 32
              \<longrightarrow> (\<exists>r_prev. fst (micros cfg lp p) = Some r_prev \<and> r_prev \<le> r))
         \<and> (\<forall>c la. \<exists>r_after.
                fst (micros cfg la ((TIM0_OVF_vect s)\<lparr>TCNT0 := c\<rparr>)) = Some r_after
              \<and> unat r_after = (ticks_after s c * K) mod 2 ^ 32
              \<and> (unat c \<le> unat (TCNT0 s)
                    \<and> (ticks_after s c * K) div 2 ^ 32 = ((ticks s + 256) * K) div 2 ^ 32
                  \<longrightarrow> r_after \<le> r
                      \<and> unat r - unat r_after = (unat (TCNT0 s) - unat c) * K
                      \<and> unat (TCNT0 s) - unat c < 256)
              \<and> (unat (TCNT0 s) \<le> unat c
                    \<and> (ticks_after s c * K) div 2 ^ 32 = ((ticks s + 256) * K) div 2 ^ 32
                  \<longrightarrow> r \<le> r_after
                      \<and> unat r_after - unat r = (unat c - unat (TCNT0 s)) * K
                      \<and> unat c - unat (TCNT0 s) < 256))
         \<and> micros_preempted cfg 3 loc s = (fst (micros cfg loc s), TIM0_OVF_vect s, False)"
proof -
  let ?x = "timer0_overflow s" and ?t = "TCNT0 s"
  let ?r = "(push_bit 8 (?x + 1) + ucast ?t) * word_of_nat K :: u32"
  let ?B = "(ticks s + 256) * K"
  have run: "micros_preempted cfg 2 loc s = (Some ?r, TIM0_OVF_vect s, False)"
    using assms(3)
    by (simp add: micros_preempted_2 [OF assms(1,2)] micros_return_conversion)
  have tB: "(unat ?x + 1) * 256 + unat ?t = ticks s + 256"
    by (simp add: ticks_def)
  have val: "unat ?r = ?B mod 2 ^ 32"
    by (simp only: unat_micros_value_succ tB)
  have same: "fst (micros cfg loc (TIM0_OVF_vect s)) = Some ?r"
    using assms(3) by (simp add: fst_micros_supported TIM0_OVF_vect_def)
  have prev: "\<exists>r_prev. fst (micros cfg lp p) = Some r_prev \<and> r_prev \<le> ?r"
    if "ticks p \<le> ticks s" and "(ticks p * K) div 2 ^ 32 = ?B div 2 ^ 32" for p lp
  proof -
    obtain r_prev where p: "fst (micros cfg lp p) = Some r_prev"
        "unat r_prev = (ticks p * K) mod 2 ^ 32"
      using unat_fst_micros [OF assms(3)] by blast
    have "ticks p * K \<le> ?B"
      using that(1) by (intro mult_le_mono1) simp
    then have "r_prev \<le> ?r"
      using p(2) val that(2) by (intro word_le_of_same_epoch)
    with p(1) show ?thesis by blast
  qed
  have after: "\<exists>r_after.
        fst (micros cfg la ((TIM0_OVF_vect s)\<lparr>TCNT0 := c\<rparr>)) = Some r_after
      \<and> unat r_after = (ticks_after s c * K) mod 2 ^ 32
      \<and> (unat c \<le> unat ?t \<and> (ticks_after s c * K) div 2 ^ 32 = ?B div 2 ^ 32
          \<longrightarrow> r_after \<le> ?r
              \<and> unat ?r - unat r_after = (unat ?t - unat c) * K
              \<and> unat ?t - unat c < 256)
      \<and> (unat ?t \<le> unat c \<and> (ticks_after s c * K) div 2 ^ 32 = ?B div 2 ^ 32
          \<longrightarrow> ?r \<le> r_after
              \<and> unat r_after - unat ?r = (unat c - unat ?t) * K
              \<and> unat c - unat ?t < 256)" for c la
  proof -
    let ?a = "(push_bit 8 (?x + 1) + ucast c) * word_of_nat K :: u32"
    let ?A = "ticks_after s c * K"
    have ra: "fst (micros cfg la ((TIM0_OVF_vect s)\<lparr>TCNT0 := c\<rparr>)) = Some ?a"
      using assms(3) by (simp add: fst_micros_supported TIM0_OVF_vect_def)
    have va: "unat ?a = ?A mod 2 ^ 32"
      by (simp only: unat_micros_value_succ ticks_after_def)
    have bt: "unat ?t < 256" and bc: "unat c < 256"
      using unsigned_less [of ?t, where 'a = nat] unsigned_less [of c, where 'a = nat]
      by simp_all
    have ahead: "?a \<le> ?r \<and> unat ?r - unat ?a = (unat ?t - unat c) * K
          \<and> unat ?t - unat c < 256"
      if le: "unat c \<le> unat ?t" and ep: "?A div 2 ^ 32 = ?B div 2 ^ 32"
    proof -
      have gap: "ticks s + 256 - ticks_after s c = unat ?t - unat c"
        and tle: "ticks_after s c \<le> ticks s + 256"
        using le by (simp_all add: ticks_def ticks_after_def)
      have AB: "?A \<le> ?B"
        using tle by (rule mult_le_mono1)
      have "?a \<le> ?r"
        using va val AB ep by (rule word_le_of_same_epoch)
      moreover have "unat ?r - unat ?a = ?B - ?A"
        by (simp only: va val mod_diff_same_epoch [OF AB ep])
      then have "unat ?r - unat ?a = (unat ?t - unat c) * K"
        by (simp only: diff_mult_distrib [symmetric] gap)
      moreover have "unat ?t - unat c < 256"
        using bt by simp
      ultimately show ?thesis by blast
    qed
    have behind: "?r \<le> ?a \<and> unat ?a - unat ?r = (unat c - unat ?t) * K
          \<and> unat c - unat ?t < 256"
      if le: "unat ?t \<le> unat c" and ep: "?A div 2 ^ 32 = ?B div 2 ^ 32"
    proof -
      have gap: "ticks_after s c - (ticks s + 256) = unat c - unat ?t"
        and tle: "ticks s + 256 \<le> ticks_after s c"
        using le by (simp_all add: ticks_def ticks_after_def)
      have BA: "?B \<le> ?A"
        using tle by (rule mult_le_mono1)
      have "?r \<le> ?a"
        using val va BA ep [symmetric] by (rule word_le_of_same_epoch)
      moreover have "unat ?a - unat ?r = ?A - ?B"
        by (simp only: va val mod_diff_same_epoch [OF BA ep [symmetric]])
      then have "unat ?a - unat ?r = (unat c - unat ?t) * K"
        by (simp only: diff_mult_distrib [symmetric] gap)
      moreover have "unat c - unat ?t < 256"
        using bc by simp
      ultimately show ?thesis by blast
    qed
    from ra va ahead behind show ?thesis by blast
  qed
  from run val same prev after micros_preempted_3 [OF assms(1,2), of loc]
  show ?thesis by blast
qed

theorem overflow_between_count_and_tally_reads_witness:
  "interrupts_enabled (attiny13 16000000 True) (snapshot 5 255)
   \<and> bit (TIMSK0 (snapshot 5 255)) (TOIE0 (attiny13 16000000 True))
   \<and> micros_preempted (attiny13 16000000 True) 2 no_locals (snapshot 5 255)
        = (Some 7164, snapshot 6 255, False)
   \<and> fst (micros (attiny13 16000000 True) no_locals (snapshot 5 250)) = Some 6120
   \<and> (\<exists>r_prev. fst (micros (attiny13 16000000 True) no_locals (snapshot 5 250)) = Some r_prev
         \<and> r_prev \<le> 7164)
   \<and> (\<exists>r_after. fst (micros (attiny13 16000000 True) no_locals (snapshot 6 1)) = Some r_after
         \<and> unat r_after = 6148 \<and> r_after \<le> 7164 \<and> 7164 - unat r_after = 254 * 4)
   \<and> micros_preempted (attiny13 16000000 True) 3 no_locals (snapshot 5 255)
        = (Some 6140, snapshot 6 255, False)
   \<and> micros_preempted (attiny13 16000000 True) 2 no_locals (snapshot 5 10)
        = (Some 6184, snapshot 6 10, False)
   \<and> (\<exists>r_after. fst (micros (attiny13 16000000 True) no_locals (snapshot 6 20)) = Some r_after
         \<and> unat r_after = 6224 \<and> 6184 \<le> r_after \<and> unat r_after - 6184 = 10 * 4)"
proof -
  let ?cfg = "attiny13 16000000 True"
  let ?s = "snapshot 5 255" and ?s' = "snapshot 5 10"
  have e: "interrupts_enabled ?cfg ?s" and e': "interrupts_enabled ?cfg ?s'"
    by (simp_all add: interrupts_enabled_def attiny13_def snapshot_def)
  have b: "bit (TIMSK0 ?s) (TOIE0 ?cfg)" and b': "bit (TIMSK0 ?s') (TOIE0 ?cfg)"
    by (simp_all add: attiny13_def snapshot_def)
  have st: "TIM0_OVF_vect ?s = snapshot 6 255" "TIM0_OVF_vect ?s' = snapshot 6 10"
      "(snapshot 6 255)\<lparr>TCNT0 := 1\<rparr> = snapshot 6 1"
      "(snapshot 6 10)\<lparr>TCNT0 := 20\<rparr> = snapshot 6 20"
    by (simp_all add: TIM0_OVF_vect_def snapshot_def)
  have tk: "ticks ?s = 1535" "ticks (snapshot 5 250) = 1530" "ticks ?s' = 1290"
      "ticks_after ?s 1 = 1537" "ticks_after ?s' 20 = 1556"
      "TCNT0 ?s = 255" "TCNT0 ?s' = 10"
    by (simp_all add: ticks_def ticks_after_def snapshot_def)
  have v: "fst (micros ?cfg no_locals (snapshot 5 250)) = Some 6120"
      "fst (micros ?cfg no_locals ?s) = Some 6140"
    by (simp_all add: micros_eq micros_return_def attiny13_def snapshot_def)
  have w: "micros_preempted ?cfg 2 no_locals ?s = (Some 7164, snapshot 6 255, False)"
    by (subst micros_preempted_2 [OF e b])
       (simp add: micros_return_def attiny13_def snapshot_def TIM0_OVF_vect_def)
  have w': "micros_preempted ?cfg 2 no_locals ?s' = (Some 6184, snapshot 6 10, False)"
    by (subst micros_preempted_2 [OF e' b'])
       (simp add: micros_return_def attiny13_def snapshot_def TIM0_OVF_vect_def)
  from overflow_between_count_and_tally_reads
         [OF e b conversion_constant_16MHz [of True], of no_locals]
  obtain r where
        r1: "micros_preempted ?cfg 2 no_locals ?s = (Some r, TIM0_OVF_vect ?s, False)"
    and r3: "\<forall>p lp. ticks p \<le> ticks ?s
                \<and> (ticks p * 4) div 2 ^ 32 = ((ticks ?s + 256) * 4) div 2 ^ 32
              \<longrightarrow> (\<exists>r_prev. fst (micros ?cfg lp p) = Some r_prev \<and> r_prev \<le> r)"
    and r4: "\<forall>c la. \<exists>r_after.
                fst (micros ?cfg la ((TIM0_OVF_vect ?s)\<lparr>TCNT0 := c\<rparr>)) = Some r_after
              \<and> unat r_after = (ticks_after ?s c * 4) mod 2 ^ 32
              \<and> (unat c \<le> unat (TCNT0 ?s)
                    \<and> (ticks_after ?s c * 4) div 2 ^ 32 = ((ticks ?s + 256) * 4) div 2 ^ 32
                  \<longrightarrow> r_after \<le> r
                      \<and> unat r - unat r_after = (unat (TCNT0 ?s) - unat c) * 4
                      \<and> unat (TCNT0 ?s) - unat c < 256)
              \<and> (unat (TCNT0 ?s) \<le> unat c
                    \<and> (ticks_after ?s c * 4) div 2 ^ 32 = ((ticks ?s + 256) * 4) div 2 ^ 32
                  \<longrightarrow> r \<le> r_after
                      \<and> unat r_after - unat r = (unat c - unat (TCNT0 ?s)) * 4
                      \<and> unat c - unat (TCNT0 ?s) < 256)"
    and r5: "micros_preempted ?cfg 3 no_locals ?s
               = (fst (micros ?cfg no_locals ?s), TIM0_OVF_vect ?s, False)"
    by blast
  from r1 w have r7: "r = 7164" by simp
  from overflow_between_count_and_tally_reads
         [OF e' b' conversion_constant_16MHz [of True], of no_locals]
  obtain r' where
        r1': "micros_preempted ?cfg 2 no_locals ?s' = (Some r', TIM0_OVF_vect ?s', False)"
    and r4': "\<forall>c la. \<exists>r_after.
                fst (micros ?cfg la ((TIM0_OVF_vect ?s')\<lparr>TCNT0 := c\<rparr>)) = Some r_after
              \<and> unat r_after = (ticks_after ?s' c * 4) mod 2 ^ 32
              \<and> (unat c \<le> unat (TCNT0 ?s')
                    \<and> (ticks_after ?s' c * 4) div 2 ^ 32 = ((ticks ?s' + 256) * 4) div 2 ^ 32
                  \<longrightarrow> r_after \<le> r'
                      \<and> unat r' - unat r_after = (unat (TCNT0 ?s') - unat c) * 4
                      \<and> unat (TCNT0 ?s') - unat c < 256)
              \<and> (unat (TCNT0 ?s') \<le> unat c
                    \<and> (ticks_after ?s' c * 4) div 2 ^ 32 = ((ticks ?s' + 256) * 4) div 2 ^ 32
                  \<longrightarrow> r' \<le> r_after
                      \<and> unat r_after - unat r' = (unat c - unat (TCNT0 ?s')) * 4
                      \<and> unat c - unat (TCNT0 ?s') < 256)"
    by blast
  from r1' w' have r6: "r' = 6184" by simp
  have p: "\<exists>r_prev. fst (micros ?cfg no_locals (snapshot 5 250)) = Some r_prev
         \<and> r_prev \<le> 7164"
    using r3 [rule_format, of "snapshot 5 250" no_locals] by (simp add: tk r7)
  have a: "\<exists>r_after. fst (micros ?cfg no_locals (snapshot 6 1)) = Some r_after
         \<and> unat r_after = 6148 \<and> r_after \<le> 7164 \<and> 7164 - unat r_after = 254 * 4"
    using r4 [rule_format, of no_locals 1] by (auto simp: st tk r7)
  have a': "\<exists>r_after. fst (micros ?cfg no_locals (snapshot 6 20)) = Some r_after
         \<and> unat r_after = 6224 \<and> 6184 \<le> r_after \<and> unat r_after - 6184 = 10 * 4"
    using r4' [rule_format, of no_locals 20] by (auto simp: st tk r6)
  from r5 have w3: "micros_preempted ?cfg 3 no_locals ?s = (Some 6140, snapshot 6 255, False)"
    by (simp add: v st)
  from e b w v(1) p a w3 w' a' show ?thesis
    by simp
qed

text \<open>
  The claim C3 as the specification states it, with the value returned stale, fails
  within one period of the 32-bit result. At 16 MHz, with tally 5: the count is read
  as 255, timer 0 overflows and the handler makes the tally 6, the tally is read, and
  the call returns 7164. The counters then stand at tally 6 and count 0, for which
  \<open>micros()\<close> returns 6144; one tick later it returns 6148. The value returned was
  ahead of the counters by 255 ticks, and the following call returns less.
\<close>

theorem preempted_reading_ahead_counterexample:
  "micros_preempted (attiny13 16000000 True) 2 no_locals (snapshot 5 255)
     = (Some 7164, snapshot 6 255, False)
   \<and> fst (micros (attiny13 16000000 True) no_locals (snapshot 6 0)) = Some 6144
   \<and> fst (micros (attiny13 16000000 True) no_locals (snapshot 6 1)) = Some 6148
   \<and> (6144 :: u32) < 7164
   \<and> (6148 :: u32) < 7164"
proof -
  have e: "interrupts_enabled (attiny13 16000000 True) (snapshot 5 255)"
    by (simp add: interrupts_enabled_def attiny13_def snapshot_def)
  have b: "bit (TIMSK0 (snapshot 5 255)) (TOIE0 (attiny13 16000000 True))"
    by (simp add: attiny13_def snapshot_def)
  show ?thesis
    by (subst micros_preempted_2 [OF e b])
       (simp add: micros_eq micros_return_def attiny13_def snapshot_def TIM0_OVF_vect_def)
qed

text \<open>
  Claim C4. Take two snapshots of the counters, the first with no more ticks
  (\<open>tally * 256 + count\<close>) than the second, and no wraparound of the 32-bit result
  between them (the ticks times the multiplier have the same quotient by \<open>2^32\<close>).
  Then \<open>micros()\<close> on the first returns no more than \<open>micros()\<close> on the second.
  Each value is the ticks times the multiplier, modulo \<open>2^32\<close>.
\<close>

theorem micros_monotone_within_epoch:
  assumes "conversion_constant (F_CPU cfg) = Some K"
      and "ticks s1 \<le> ticks s2"
      and "(ticks s1 * K) div 2 ^ 32 = (ticks s2 * K) div 2 ^ 32"
  shows "\<exists>r1 r2. fst (micros cfg l1 s1) = Some r1 \<and> fst (micros cfg l2 s2) = Some r2
           \<and> unat r1 = (ticks s1 * K) mod 2 ^ 32 \<and> unat r2 = (ticks s2 * K) mod 2 ^ 32
           \<and> r1 \<le> r2"
proof -
  obtain r1 where r1: "fst (micros cfg l1 s1) = Some r1" "unat r1 = (ticks s1 * K) mod 2 ^ 32"
    using unat_fst_micros [OF assms(1)] by blast
  obtain r2 where r2: "fst (micros cfg l2 s2) = Some r2" "unat r2 = (ticks s2 * K) mod 2 ^ 32"
    using unat_fst_micros [OF assms(1)] by blast
  have "ticks s1 * K \<le> ticks s2 * K"
    using assms(2) by (rule mult_le_mono1)
  then have "(ticks s1 * K) mod 2 ^ 32 \<le> (ticks s2 * K) mod 2 ^ 32"
    using assms(3) by (rule mod_mono_same_epoch)
  then have "r1 \<le> r2"
    by (simp add: word_le_nat_alt r1 r2)
  with r1 r2 show ?thesis by blast
qed

theorem micros_monotone_within_epoch_witness:
  "ticks (snapshot 3 232) = 1000 \<and> ticks (snapshot 4 0) = 1024
   \<and> fst (micros (attiny13 16000000 True) no_locals (snapshot 3 232)) = Some 4000
   \<and> fst (micros (attiny13 16000000 True) no_locals (snapshot 4 0)) = Some 4096
   \<and> (\<exists>r1 r2. fst (micros (attiny13 16000000 True) no_locals (snapshot 3 232)) = Some r1
        \<and> fst (micros (attiny13 16000000 True) no_locals (snapshot 4 0)) = Some r2
        \<and> unat r1 = (ticks (snapshot 3 232) * 4) mod 2 ^ 32
        \<and> unat r2 = (ticks (snapshot 4 0) * 4) mod 2 ^ 32
        \<and> r1 \<le> r2)"
proof -
  have t1: "ticks (snapshot 3 232) = 1000" and t2: "ticks (snapshot 4 0) = 1024"
    by (simp_all add: ticks_def snapshot_def)
  have le: "ticks (snapshot 3 232) \<le> ticks (snapshot 4 0)"
    by (simp add: t1 t2)
  have ep: "(ticks (snapshot 3 232) * 4) div 2 ^ 32 = (ticks (snapshot 4 0) * 4) div 2 ^ 32"
    by (simp add: t1 t2)
  have v1: "fst (micros (attiny13 16000000 True) no_locals (snapshot 3 232)) = Some 4000"
    by (simp add: micros_eq micros_return_def attiny13_def snapshot_def)
  have v2: "fst (micros (attiny13 16000000 True) no_locals (snapshot 4 0)) = Some 4096"
    by (simp add: micros_eq micros_return_def attiny13_def snapshot_def)
  from micros_monotone_within_epoch
         [OF conversion_constant_16MHz [of True] le ep, of no_locals no_locals] t1 t2 v1 v2
  show ?thesis by blast
qed

text \<open>
  Claim C5, as amended. Compiled with \<open>ENABLE_MICROS\<close>, \<open>init()\<close> is four
  statements in this order: it writes the prescaler bits to \<open>TCCR0B\<close> (those of
  divisor 64 when \<open>F_CPU\<close> is at least 4.8 MHz, those of divisor 8 below), writes
  the overflow interrupt enable bit to \<open>TIMSK0\<close>, zeros \<open>TCNT0\<close>, and last sets
  the global interrupt flag. Compiled without \<open>ENABLE_MICROS\<close> it only sets the
  global interrupt flag.
\<close>

theorem init_effects_in_order:
  "(ENABLE_MICROS cfg \<longrightarrow>
      init_upto cfg 1 s = s\<lparr>TCCR0B := clock_select cfg (prescaler_of (F_CPU cfg))\<rparr>
    \<and> init_upto cfg 2 s = s\<lparr>TCCR0B := clock_select cfg (prescaler_of (F_CPU cfg)),
                             TIMSK0 := BV (TOIE0 cfg)\<rparr>
    \<and> init_upto cfg 3 s = s\<lparr>TCCR0B := clock_select cfg (prescaler_of (F_CPU cfg)),
                             TIMSK0 := BV (TOIE0 cfg), TCNT0 := 0\<rparr>
    \<and> init cfg s = sei cfg (init_upto cfg 3 s)
    \<and> length (init_body cfg) = 4)
   \<and> (\<not> ENABLE_MICROS cfg \<longrightarrow> init cfg s = sei cfg s)
   \<and> (4800000 \<le> F_CPU cfg \<longrightarrow>
        clock_select cfg (prescaler_of (F_CPU cfg)) = BV (CS00 cfg) OR BV (CS01 cfg)
        \<and> divisor (prescaler_of (F_CPU cfg)) = 64)
   \<and> (F_CPU cfg < 4800000 \<longrightarrow>
        clock_select cfg (prescaler_of (F_CPU cfg)) = BV (CS01 cfg)
        \<and> divisor (prescaler_of (F_CPU cfg)) = 8)
   \<and> (SREG_I cfg < 8 \<longrightarrow> interrupts_enabled cfg (init cfg s))"
proof -
  have en: "interrupts_enabled cfg (init cfg s)" if "SREG_I cfg < 8"
    using that
    by (cases "ENABLE_MICROS cfg")
       (simp_all add: init_upto_enabled(4) init_disabled interrupts_enabled_sei)
  have hi: "clock_select cfg (prescaler_of (F_CPU cfg)) = BV (CS00 cfg) OR BV (CS01 cfg)
        \<and> divisor (prescaler_of (F_CPU cfg)) = 64" if "4800000 \<le> F_CPU cfg"
    using that by (simp add: prescaler_of_def)
  have lo: "clock_select cfg (prescaler_of (F_CPU cfg)) = BV (CS01 cfg)
        \<and> divisor (prescaler_of (F_CPU cfg)) = 8" if "F_CPU cfg < 4800000"
    using that by (simp add: prescaler_of_def)
  from en hi lo init_upto_enabled [of cfg] init_disabled [of cfg s]
  show ?thesis by blast
qed

theorem init_effects_in_order_witness:
  "init_upto (attiny13 16000000 True) 1 (all_zero\<lparr>TCNT0 := 7\<rparr>)
        = \<lparr>SREG = 0, TCCR0B = 3, TIMSK0 = 0, TCNT0 = 7, timer0_overflow = 0\<rparr>
   \<and> init_upto (attiny13 16000000 True) 2 (all_zero\<lparr>TCNT0 := 7\<rparr>)
        = \<lparr>SREG = 0, TCCR0B = 3, TIMSK0 = 2, TCNT0 = 7, timer0_overflow = 0\<rparr>
   \<and> init_upto (attiny13 16000000 True) 3 (all_zero\<lparr>TCNT0 := 7\<rparr>)
        = \<lparr>SREG = 0, TCCR0B = 3, TIMSK0 = 2, TCNT0 = 0, timer0_overflow = 0\<rparr>
   \<and> init (attiny13 16000000 True) (all_zero\<lparr>TCNT0 := 7\<rparr>)
        = \<lparr>SREG = 0x80, TCCR0B = 3, TIMSK0 = 2, TCNT0 = 0, timer0_overflow = 0\<rparr>
   \<and> init (attiny13 1000000 True) (all_zero\<lparr>TCNT0 := 7\<rparr>)
        = \<lparr>SREG = 0x80, TCCR0B = 2, TIMSK0 = 2, TCNT0 = 0, timer0_overflow = 0\<rparr>
   \<and> init (attiny13 1000000 False) (all_zero\<lparr>TCNT0 := 7\<rparr>)
        = \<lparr>SREG = 0x80, TCCR0B = 0, TIMSK0 = 0, TCNT0 = 7, timer0_overflow = 0\<rparr>
   \<and> interrupts_enabled (attiny13 16000000 True)
        (init (attiny13 16000000 True) (all_zero\<lparr>TCNT0 := 7\<rparr>))"
  using init_effects_in_order [of "attiny13 16000000 True" "all_zero\<lparr>TCNT0 := 7\<rparr>"]
        init_effects_in_order [of "attiny13 1000000 True" "all_zero\<lparr>TCNT0 := 7\<rparr>"]
        init_effects_in_order [of "attiny13 1000000 False" "all_zero\<lparr>TCNT0 := 7\<rparr>"]
  by (simp add: attiny13_def BV_def sei_def all_zero_def interrupts_enabled_def)

text \<open>
  The claim C5 as the specification states it, with no condition on the build, fails:
  compiled without \<open>ENABLE_MICROS\<close>, \<open>init()\<close> writes no prescaler bits, does
  not enable the overflow interrupt and leaves a count of 7 in \<open>TCNT0\<close>.
\<close>

theorem init_without_micros_counterexample:
  "init (attiny13 16000000 False) (all_zero\<lparr>TCNT0 := 7\<rparr>)
     = \<lparr>SREG = 0x80, TCCR0B = 0, TIMSK0 = 0, TCNT0 = 7, timer0_overflow = 0\<rparr>"
  by (simp add: init_def init_body_def sei_def attiny13_def all_zero_def)

text \<open>
  Claim C6. \<open>delay(ms)\<close> runs the one-millisecond busy-wait exactly \<open>ms\<close> times:
  the loop started at \<open>ms\<close> reaches the loop started at counter \<open>0\<close> with \<open>ms\<close>
  more milliseconds waited, and there it stops. \<open>delay_loop\<close> is a total function
  (its termination is proved with the measure \<open>unat ms\<close>), so \<open>delay\<close> returns for
  every input, and \<open>delay(0)\<close> waits not at all.
\<close>

theorem delay_waits_ms_times:
  "delay ms waited = waited + unat ms
   \<and> delay_loop ms waited = delay_loop 0 (waited + unat ms)
   \<and> delay_loop 0 waited = (0xFFFF, waited)
   \<and> delay 0 waited = waited"
  by (simp add: delay_def delay_loop_eq)

text \<open>
  Claim C7. One run of the overflow interrupt handler adds one to the overflow tally,
  modulo \<open>2^32\<close>, and leaves every register of the machine as it was.
\<close>

theorem isr_increments_tally_only:
  "timer0_overflow (TIM0_OVF_vect s) = timer0_overflow s + 1
   \<and> unat (timer0_overflow (TIM0_OVF_vect s)) = (unat (timer0_overflow s) + 1) mod 2 ^ 32
   \<and> TIM0_OVF_vect s = s\<lparr>timer0_overflow := timer0_overflow s + 1\<rparr>
   \<and> SREG (TIM0_OVF_vect s) = SREG s
   \<and> TCCR0B (TIM0_OVF_vect s) = TCCR0B s
   \<and> TIMSK0 (TIM0_OVF_vect s) = TIMSK0 s
   \<and> TCNT0 (TIM0_OVF_vect s) = TCNT0 s"
  by (simp add: TIM0_OVF_vect_def unat_word_ariths)

text \<open>
  Claim C8, as amended. A second call of \<open>init()\<close> is an ordinary call. Compiled
  with \<open>ENABLE_MICROS\<close> it zeros the count register \<open>TCNT0\<close> again and leaves the
  overflow tally as it is, so the ticks \<open>micros()\<close> converts go back by the count
  discarded, at most 255.
\<close>

theorem init_again_rezeros_count_only:
  assumes "ENABLE_MICROS cfg"
  shows "TCNT0 (init cfg s) = 0
       \<and> timer0_overflow (init cfg s) = timer0_overflow s
       \<and> ticks (init cfg s) = ticks s - unat (TCNT0 s)
       \<and> ticks s - ticks (init cfg s) \<le> 255"
proof -
  have "unat (TCNT0 s) \<le> 255"
    using unsigned_less [of "TCNT0 s", where 'a = nat] by simp
  with assms show ?thesis
    by (simp add: init_counters ticks_init ticks_def)
qed

theorem init_again_rezeros_count_only_witness:
  "ENABLE_MICROS (attiny13 16000000 True)
   \<and> TCNT0 (init (attiny13 16000000 True) (snapshot 5 7)) = 0
   \<and> timer0_overflow (init (attiny13 16000000 True) (snapshot 5 7)) = 5
   \<and> ticks (snapshot 5 7) = 1287
   \<and> ticks (init (attiny13 16000000 True) (snapshot 5 7)) = 1280
   \<and> fst (micros (attiny13 16000000 True) no_locals (snapshot 5 7)) = Some 5148
   \<and> fst (micros (attiny13 16000000 True) no_locals
            (init (attiny13 16000000 True) (snapshot 5 7))) = Some 5120"
proof -
  have e: "ENABLE_MICROS (attiny13 16000000 True)"
    by (simp add: attiny13_def)
  have t: "ticks (snapshot 5 7) = 1287" "TCNT0 (snapshot 5 7) = 7"
          "timer0_overflow (snapshot 5 7) = 5"
    by (simp_all add: ticks_def snapshot_def)
  have m: "fst (micros (attiny13 16000000 True) no_locals (snapshot 5 7)) = Some 5148"
    by (simp add: micros_eq micros_return_def attiny13_def snapshot_def)
  have "F_CPU (attiny13 16000000 True) = 16000000"
    by (simp add: attiny13_def)
  with init_again_rezeros_count_only [OF e, of "snapshot 5 7"] t
  have "fst (micros (attiny13 16000000 True) no_locals
            (init (attiny13 16000000 True) (snapshot 5 7))) = Some 5120"
    by (simp add: micros_eq micros_return_def)
  with init_again_rezeros_count_only [OF e, of "snapshot 5 7"] e t m
  show ?thesis by simp
qed

text \<open>
  The claim C8 as the specification states it fails for the overflow tally: after
  \<open>init()\<close>, one overflow interrupt and \<open>init()\<close> again, the tally is 1, not 0.
\<close>

theorem init_keeps_tally_counterexample:
  "timer0_overflow
     (init (attiny13 16000000 True)
        (TIM0_OVF_vect (init (attiny13 16000000 True) all_zero))) = 1
   \<and> TCNT0
     (init (attiny13 16000000 True)
        (TIM0_OVF_vect (init (attiny13 16000000 True) all_zero))) = 0"
  by (simp add: init_counters TIM0_OVF_vect_def all_zero_def attiny13_def)

text \<open>
  Claim C9. In a build with \<open>ENABLE_MICROS\<close> and a listed frequency, from a state
  whose overflow tally has its static initial value 0, \<open>init()\<close> followed at once
  by \<open>micros()\<close> (no timer tick, no overflow interrupt in between) returns 0.
\<close>

theorem init_then_micros_is_zero:
  assumes "ENABLE_MICROS cfg"
      and "conversion_constant (F_CPU cfg) = Some K"
      and "static_init s"
  shows "fst (micros cfg l0 (init cfg s)) = Some 0"
  using assms
  by (simp add: fst_micros_supported init_counters static_init_def)

theorem init_then_micros_is_zero_witness:
  "ENABLE_MICROS (attiny13 16000000 True)
   \<and> conversion_constant (F_CPU (attiny13 16000000 True)) = Some 4
   \<and> static_init (snapshot 0 9)
   \<and> fst (micros (attiny13 16000000 True) no_locals (snapshot 0 9)) = Some 36
   \<and> fst (micros (attiny13 16000000 True) no_locals
            (init (attiny13 16000000 True) (snapshot 0 9))) = Some 0"
proof -
  have e: "ENABLE_MICROS (attiny13 16000000 True)"
    by (simp add: attiny13_def)
  have z: "static_init (snapshot 0 9)"
    by (simp add: static_init_def snapshot_def)
  have b: "fst (micros (attiny13 16000000 True) no_locals (snapshot 0 9)) = Some 36"
    by (simp add: micros_eq micros_return_def attiny13_def snapshot_def)
  from init_then_micros_is_zero [OF e conversion_constant_16MHz [of True] z, of no_locals]
    e conversion_constant_16MHz [of True] z b
  show ?thesis by blast
qed

text \<open>
  Claim C10. \<open>micros()\<close> only reads: from every state it returns with the machine,
  the overflow tally and the whole status register included, as on entry, although
  the global interrupt flag is clear after its third and after its fourth statement.
\<close>

theorem micros_restores_state:
  "snd (micros cfg l0 s) = s
   \<and> SREG (snd (micros cfg l0 s)) = SREG s
   \<and> timer0_overflow (snd (micros cfg l0 s)) = timer0_overflow s
   \<and> \<not> interrupts_enabled cfg (snd (micros_upto cfg 3 l0 s))
   \<and> \<not> interrupts_enabled cfg (snd (micros_upto cfg 4 l0 s))"
  by (simp add: micros_eq micros_upto_3 micros_upto_4 interrupts_enabled_def cli_def
      bit_unset_bit_iff)

section \<open>Further properties\<close>

text \<open>
  Beyond \<open>2^32\<close> microseconds the value returned by \<open>micros()\<close> starts again
  from zero: at 16 MHz the reading \<open>0xFFFFFFFC\<close> is followed, one tick later, by
  \<open>0\<close>.
\<close>

lemma micros_wraps_around:
  "ticks (snapshot 0x3FFFFF 255) \<le> ticks (snapshot 0x400000 0)
   \<and> fst (micros (attiny13 16000000 True) no_locals (snapshot 0x3FFFFF 255)) = Some 0xFFFFFFFC
   \<and> fst (micros (attiny13 16000000 True) no_locals (snapshot 0x400000 0)) = Some 0"
  by (simp add: micros_eq micros_return_def attiny13_def snapshot_def ticks_def)

end
